theory Spec2Isabelle
  imports Main "HOL-Library.Word"
begin

section \<open>JavaScript strings\<close>

text \<open>
  A JavaScript string is a sequence of 16-bit code units. String equality (\<open>===\<close>),
  \<open>endsWith\<close> and the regular expressions of \<open>index.ts\<close> (none has the \<open>u\<close> flag) all
  work on code units, so the model does too. \<open>js\<close> turns an ASCII literal into code units.
\<close>

type_synonym jschar = "16 word"
type_synonym jsstring = "jschar list"

definition js :: "string \<Rightarrow> jsstring" where
  "js s = map of_char s"

text \<open>\<open>String.prototype.endsWith(e)\<close>: the last \<open>e.length\<close> code units are \<open>e\<close>.\<close>

definition endsWith :: "jsstring \<Rightarrow> jsstring \<Rightarrow> bool" where
  "endsWith s e = (length e \<le> length s \<and> drop (length s - length e) s = e)"

section \<open>Regular expressions with ECMAScript backtracking\<close>

text \<open>
  The patterns of \<open>index.ts\<close> use literals, \<open>.\<close>, \<open>\s\<close>, negated and positive character
  classes, \<open>^\<close>, sequence, alternation and the greedy quantifiers \<open>*\<close> and \<open>?\<close> on
  non-capturing groups. \<open>matches r (n, s)\<close> lists, in the priority order of the
  backtracking matcher, every state in which \<open>r\<close> can finish when started at index \<open>n\<close>
  with \<open>s\<close> left to read: an alternation tries its left branch first, a greedy quantifier
  tries one more iteration before stopping, and an iteration that consumed nothing is
  rejected (the empty check of the ECMAScript RepeatMatcher). The head of the list is the
  match that a JavaScript engine reports.
\<close>

datatype atom = Lit jschar | Dot | Space | NotLit jschar | OneOf "jschar list"

definition line_terminator :: "jschar \<Rightarrow> bool" where
  "line_terminator c = (c = 0x0A \<or> c = 0x0D \<or> c = 0x2028 \<or> c = 0x2029)"

definition white_space :: "jschar \<Rightarrow> bool" where
  "white_space c =
     (c = 0x09 \<or> c = 0x0B \<or> c = 0x0C \<or> c = 0x20 \<or> c = 0xA0 \<or> c = 0xFEFF \<or> c = 0x1680
      \<or> (0x2000 \<le> c \<and> c \<le> 0x200A) \<or> c = 0x202F \<or> c = 0x205F \<or> c = 0x3000)"

fun atom_ok :: "atom \<Rightarrow> jschar \<Rightarrow> bool" where
  "atom_ok (Lit a) c = (c = a)"
| "atom_ok Dot c = (\<not> line_terminator c)"
| "atom_ok Space c = (white_space c \<or> line_terminator c)"
| "atom_ok (NotLit a) c = (c \<noteq> a)"
| "atom_ok (OneOf as) c = (c \<in> set as)"

datatype regex =
  Atom atom | Bol | Eps | Seq regex regex | Alt regex regex | Star regex | Opt regex

type_synonym mstate = "nat \<times> jsstring"

function matches :: "regex \<Rightarrow> mstate \<Rightarrow> mstate list" where
  "matches (Atom a) (n, s) =
     (case s of [] \<Rightarrow> [] | c # cs \<Rightarrow> if atom_ok a c then [(Suc n, cs)] else [])"
| "matches Bol (n, s) = (if n = 0 then [(n, s)] else [])"
| "matches Eps (n, s) = [(n, s)]"
| "matches (Seq r1 r2) (n, s) = concat (map (matches r2) (matches r1 (n, s)))"
| "matches (Alt r1 r2) (n, s) = matches r1 (n, s) @ matches r2 (n, s)"
| "matches (Star r) (n, s) =
     concat (map (\<lambda>st. if length (snd st) < length s then matches (Star r) st else [])
                 (matches r (n, s))) @ [(n, s)]"
| "matches (Opt r) (n, s) =
     filter (\<lambda>st. length (snd st) < length s) (matches r (n, s)) @ [(n, s)]"
  by pat_completeness auto
termination
  by (relation "measures [\<lambda>(r, st). size r, \<lambda>(r, st). length (snd st)]") auto

text \<open>A literal string as a pattern.\<close>

definition lit :: "jsstring \<Rightarrow> regex" where
  "lit s = foldr (\<lambda>c r. Seq (Atom (Lit c)) r) s Eps"

text \<open>
  \<open>String.prototype.match\<close> with a pattern without the \<open>g\<close> flag: the matcher is tried at
  index 0, then 1, and so on up to the length of the string; the result is the first
  success (its index and the matched text \<open>match[0]\<close>) or \<open>null\<close>.
\<close>

record match_result =
  match_index :: nat
  match_0 :: jsstring

fun exec_from :: "regex \<Rightarrow> nat \<Rightarrow> jsstring \<Rightarrow> match_result option" where
  "exec_from r n [] =
     (case matches r (n, []) of
        [] \<Rightarrow> None
      | st # _ \<Rightarrow> Some \<lparr>match_index = n, match_0 = []\<rparr>)"
| "exec_from r n (c # cs) =
     (case matches r (n, c # cs) of
        [] \<Rightarrow> exec_from r (Suc n) cs
      | st # _ \<Rightarrow> Some \<lparr>match_index = n, match_0 = take (fst st - n) (c # cs)\<rparr>)"

definition js_match :: "jsstring \<Rightarrow> regex \<Rightarrow> match_result option" where
  "js_match s r = exec_from r 0 s"

section \<open>The text editor (MagicString)\<close>

text \<open>
  \<open>magic-string\<close> is an external library. A buffer keeps the original text, what was
  prepended and appended, and the current content of the original range. \<open>overwrite\<close>
  refuses a zero-length range by throwing; \<open>replace\<close> with a pattern without the \<open>g\<close> flag
  matches the original text and overwrites the matched range with what the replacer
  returns for \<open>match[0]\<close>. Each buffer of \<open>index.ts\<close> receives at most one edit. The source
  map is whatever \<open>generateMap\<close> computes from the edited buffer and its options; it is a
  parameter \<open>gen_map\<close> of the hooks.
\<close>

datatype ms_error = ZeroLengthRange

record magic_string =
  original :: jsstring
  filename :: "jsstring option"
  intro :: jsstring
  body :: jsstring
  outro :: jsstring

definition ms_new :: "jsstring \<Rightarrow> jsstring option \<Rightarrow> magic_string" where
  "ms_new str fname =
     \<lparr>original = str, filename = fname, intro = [], body = str, outro = []\<rparr>"

definition ms_append :: "magic_string \<Rightarrow> jsstring \<Rightarrow> magic_string" where
  "ms_append ms content = ms\<lparr>outro := outro ms @ content\<rparr>"

definition ms_prepend :: "magic_string \<Rightarrow> jsstring \<Rightarrow> magic_string" where
  "ms_prepend ms content = ms\<lparr>intro := content @ intro ms\<rparr>"

definition ms_overwrite ::
  "magic_string \<Rightarrow> nat \<Rightarrow> nat \<Rightarrow> jsstring \<Rightarrow> ms_error + magic_string" where
  "ms_overwrite ms start end content =
     (if start = end then Inl ZeroLengthRange
      else Inr (ms\<lparr>body := take start (original ms) @ content @ drop end (original ms)\<rparr>))"

definition ms_replace ::
  "magic_string \<Rightarrow> regex \<Rightarrow> (jsstring \<Rightarrow> jsstring) \<Rightarrow> ms_error + magic_string" where
  "ms_replace ms searchValue replacement =
     (case js_match (original ms) searchValue of
        None \<Rightarrow> Inr ms
      | Some m \<Rightarrow>
          ms_overwrite ms (match_index m) (match_index m + length (match_0 m))
            (replacement (match_0 m)))"

definition ms_toString :: "magic_string \<Rightarrow> jsstring" where
  "ms_toString ms = intro ms @ body ms @ outro ms"

text \<open>What a hook returns: \<open>{ code, map }\<close>.\<close>

record 'm hook_result =
  code :: jsstring
  map_out :: 'm

section \<open>Release injection hooks\<close>

definition virtualReleaseInjectionFileId :: jsstring where
  "virtualReleaseInjectionFileId = 0 # js ''sentry-release-injection-file''"

record resolved_id =
  id_out :: jsstring
  external :: bool
  moduleSideEffects :: bool

definition resolveId :: "jsstring \<Rightarrow> resolved_id option" where
  "resolveId i =
     (if i = virtualReleaseInjectionFileId
      then Some \<lparr>id_out = virtualReleaseInjectionFileId, external = False,
                 moduleSideEffects = True\<rparr>
      else None)"

definition load :: "jsstring \<Rightarrow> jsstring \<Rightarrow> jsstring option" where
  "load injectionCode i =
     (if i = virtualReleaseInjectionFileId then Some injectionCode else None)"

text \<open>The pattern \<^verbatim>\<open>/\\node_modules\\|\/node_modules\//\<close>.\<close>

definition nodeModulesRegex :: regex where
  "nodeModulesRegex =
     Alt (lit (0x5C # js ''node_modules'' @ [0x5C])) (lit (js ''/node_modules/''))"

definition transformEndings :: "jsstring list" where
  "transformEndings = [js ''.js'', js ''.ts'', js ''.jsx'', js ''.tsx'', js ''.mjs'']"

definition importStatement :: jsstring where
  "importStatement =
     [0x0A, 0x0A] @ js '';import \"'' @ virtualReleaseInjectionFileId @ js ''\";''"

definition transform ::
  "(magic_string \<Rightarrow> jsstring option \<Rightarrow> 'm) \<Rightarrow> jsstring \<Rightarrow> jsstring \<Rightarrow> 'm hook_result option"
  where
  "transform gen_map src i =
     (if i = virtualReleaseInjectionFileId then None
      else if js_match i nodeModulesRegex \<noteq> None then None
      else if \<not> list_ex (\<lambda>ending. endsWith i ending) transformEndings then None
      else
        let ms = ms_append (ms_new src None) importStatement
        in Some \<lparr>code = ms_toString ms, map_out = gen_map ms None\<rparr>)"

section \<open>Debug ID injection hooks\<close>

definition getDebugIdSnippet :: "jsstring \<Rightarrow> jsstring" where
  "getDebugIdSnippet debugId =
     js '';!function(){try{var e=\"undefined\"!=typeof window?window:\"undefined\"!=typeof global?global:\"undefined\"!=typeof self?self:{},n=(new Error).stack;n&&(e._sentryDebugIds=e._sentryDebugIds||{},e._sentryDebugIds[n]=\"''
     @ debugId
     @ js ''\",e._sentryDebugIdIdentifier=\"sentry-dbid-''
     @ debugId
     @ js ''\")}catch(e){}}();''"

text \<open>
  The pattern
  \<^verbatim>\<open>/^(?:\s*|\/\*(?:.|\r|\n)*\*\/|\/\/.*[\n\r])*(?:"[^"]*";|'[^']*';)?/\<close>,
  written piece by piece.
\<close>

definition blockComment :: regex where
  "blockComment =
     Seq (lit (js ''/*''))
       (Seq (Star (Alt (Atom Dot) (Alt (Atom (Lit 0x0D)) (Atom (Lit 0x0A)))))
            (lit (js ''*/'')))"

definition lineComment :: regex where
  "lineComment =
     Seq (lit (js ''//'')) (Seq (Star (Atom Dot)) (Atom (OneOf [0x0A, 0x0D])))"

definition directive :: regex where
  "directive =
     Alt (Seq (Atom (Lit 0x22)) (Seq (Star (Atom (NotLit 0x22))) (lit [0x22, 0x3B])))
         (Seq (Atom (Lit 0x27)) (Seq (Star (Atom (NotLit 0x27))) (lit [0x27, 0x3B])))"

definition commentUseStrictRegex :: regex where
  "commentUseStrictRegex =
     Seq Bol
       (Seq (Star (Alt (Star (Atom Space)) (Alt blockComment lineComment)))
            (Opt directive))"

definition chunkEndings :: "jsstring list" where
  "chunkEndings = [js ''.js'', js ''.mjs'', js ''.cjs'']"

text \<open>
  \<open>code.match(commentUseStrictRegex)?.[0]\<close> as a condition: the match exists and its
  text is not the empty string.
\<close>

definition truthy_match_0 :: "match_result option \<Rightarrow> bool" where
  "truthy_match_0 m = (case m of None \<Rightarrow> False | Some r \<Rightarrow> match_0 r \<noteq> [])"

text \<open>
  \<open>stringToUUID\<close> lives in \<open>utils.ts\<close>; the hook takes it as the parameter \<open>uuid\<close>. The
  result is \<open>Inl\<close> when the editor throws, \<open>Inr None\<close> for \<open>null\<close>.
\<close>

definition renderChunk ::
  "(jsstring \<Rightarrow> jsstring) \<Rightarrow> (magic_string \<Rightarrow> jsstring option \<Rightarrow> 'm) \<Rightarrow>
   jsstring \<Rightarrow> jsstring \<Rightarrow> ms_error + 'm hook_result option" where
  "renderChunk uuid gen_map src fileName =
     (if list_ex (\<lambda>ending. endsWith fileName ending) chunkEndings then
        let debugId = uuid src;
            codeToInject = getDebugIdSnippet debugId;
            ms = ms_new src (Some fileName);
            edited =
              (if truthy_match_0 (js_match src commentUseStrictRegex)
               then ms_replace ms commentUseStrictRegex (\<lambda>m. m @ codeToInject)
               else Inr (ms_prepend ms codeToInject))
        in (case edited of
              Inl e \<Rightarrow> Inl e
            | Inr ms' \<Rightarrow>
                Inr (Some \<lparr>code = ms_toString ms', map_out = gen_map ms' (Some fileName)\<rparr>))
      else Inr None)"



definition no_map :: "magic_string \<Rightarrow> jsstring option \<Rightarrow> unit" where
  "no_map ms file = ()"

text \<open>
  The segments of a path: the pieces between the separators, slash and backslash. A path
  has a \<open>node_modules\<close> segment when one of its segments is \<open>node_modules\<close>.
\<close>

fun split_path :: "jsstring \<Rightarrow> jsstring list" where
  "split_path [] = [[]]"
| "split_path (c # cs) =
     (if c = 0x2F \<or> c = 0x5C then [] # split_path cs
      else (case split_path cs of [] \<Rightarrow> [[c]] | seg # segs \<Rightarrow> (c # seg) # segs))"

definition has_node_modules_segment :: "jsstring \<Rightarrow> bool" where
  "has_node_modules_segment i = (js ''node_modules'' \<in> set (split_path i))"

section \<open>What the prologue pattern matches\<close>



definition greedy :: "(jschar \<Rightarrow> bool) \<Rightarrow> jsstring \<Rightarrow> nat list" where
  "greedy P s = rev [0..<Suc (length (takeWhile P s))]"












section \<open>The recoverable-error sink\<close>

text \<open>
  A thrown or passed value is an \<open>Error\<close> instance (with its message) or something else.
  The user's \<open>errorHandler\<close> is a JavaScript function: called with an error it returns
  (\<open>Inr ()\<close>) or throws a value (\<open>Inl\<close>). The state records the status set on the plugin
  execution transaction and the arguments of every call of the callback, in order.
\<close>

datatype js_value = ErrorObject jsstring | StringValue jsstring | NumberValue int | Undefined

fun instanceof_Error :: "js_value \<Rightarrow> bool" where
  "instanceof_Error (ErrorObject msg) = True"
| "instanceof_Error v = False"

type_synonym error_handler = "js_value \<Rightarrow> js_value + unit"

record sink_state =
  transaction_status :: "jsstring option"
  handler_calls :: "js_value list"

definition handleRecoverableError ::
  "error_handler option \<Rightarrow> js_value \<Rightarrow> sink_state \<Rightarrow> (js_value + unit) \<times> sink_state" where
  "handleRecoverableError errorHandler unknownError st =
     (let st1 = st\<lparr>transaction_status := Some (js ''internal_error'')\<rparr> in
      case errorHandler of
        Some handler \<Rightarrow>
          if instanceof_Error unknownError
          then (handler unknownError,
                st1\<lparr>handler_calls := handler_calls st1 @ [unknownError]\<rparr>)
          else (handler (ErrorObject (js ''An unknown error occured'')),
                st1\<lparr>handler_calls :=
                      handler_calls st1 @ [ErrorObject (js ''An unknown error occured'')]\<rparr>)
      | None \<Rightarrow> (Inl unknownError, st1))"

text \<open>A callback that throws the error it is given.\<close>

definition rethrowing_handler :: error_handler where
  "rethrowing_handler err = Inl err"

text \<open>A callback that returns normally.\<close>

definition returning_handler :: error_handler where
  "returning_handler err = Inr ()"

definition sink_state0 :: sink_state where
  "sink_state0 = \<lparr>transaction_status = None, handler_calls = []\<rparr>"

section \<open>The identifier generator\<close>

text \<open>
  Modelled from the spec: \<open>stringToUUID\<close> is imported from \<open>./utils\<close>, which is not among
  the sources. Section 4.1 of the specification: a pure function that hashes the full
  content, then formats the first 128 bits of the hash per the UUID layout, with the
  version and variant bits fixed. The hash is the parameter \<open>hash\<close>; the version nibble is
  set to 4 and the two variant bits to binary 10.
\<close>

definition hex_digit :: "nat \<Rightarrow> jschar" where
  "hex_digit n = (if n < 10 then 0x30 + of_nat n else 0x57 + of_nat n)"

definition nibble :: "128 word \<Rightarrow> nat \<Rightarrow> nat" where
  "nibble w i = unat (drop_bit (4 * (31 - i)) w) mod 16"

definition fix_version_variant :: "128 word \<Rightarrow> 128 word" where
  "fix_version_variant w =
     or (and (or (and w (not (push_bit 76 0xF))) (push_bit 76 4)) (not (push_bit 62 3)))
        (push_bit 62 2)"

definition hex_group :: "128 word \<Rightarrow> nat \<Rightarrow> nat \<Rightarrow> jsstring" where
  "hex_group w i j = map (\<lambda>k. hex_digit (nibble w k)) [i..<j]"

definition format_uuid :: "128 word \<Rightarrow> jsstring" where
  "format_uuid w =
     hex_group w 0 8 @ [0x2D] @ hex_group w 8 12 @ [0x2D] @ hex_group w 12 16 @ [0x2D]
       @ hex_group w 16 20 @ [0x2D] @ hex_group w 20 32"

definition stringToUUID :: "(jsstring \<Rightarrow> 128 word) \<Rightarrow> jsstring \<Rightarrow> jsstring" where
  "stringToUUID hash str = format_uuid (fix_version_variant (hash str))"

text \<open>
  The canonical textual shape of a UUID: groups of hexadecimal digits of the given
  lengths, separated by single hyphens.
\<close>

definition is_hex :: "jschar \<Rightarrow> bool" where
  "is_hex c = ((0x30 \<le> c \<and> c \<le> 0x39) \<or> (0x61 \<le> c \<and> c \<le> 0x66) \<or> (0x41 \<le> c \<and> c \<le> 0x46))"

fun hex_groups :: "nat list \<Rightarrow> jsstring \<Rightarrow> bool" where
  "hex_groups [] s = False"
| "hex_groups [n] s = (length s = n \<and> list_all is_hex s)"
| "hex_groups (n # ns) s =
     (length (take n s) = n \<and> list_all is_hex (take n s) \<and>
      (case drop n s of [] \<Rightarrow> False | c # rest \<Rightarrow> c = 0x2D \<and> hex_groups ns rest))"

definition uuid_shape :: "jsstring \<Rightarrow> bool" where
  "uuid_shape s = hex_groups [8, 4, 4, 4, 12] s"

section \<open>The release pipeline\<close>

text \<open>
  What \<open>sentryUnpluginFactory\<close> hands to \<open>releaseManagementPlugin\<close>: the plugin is installed
  only when a release name was determined (a non-empty string), and receives the options
  under the names below.
\<close>

record ('c, 'd) options =
  errorHandler :: "error_handler option"
  cleanArtifacts :: bool
  uploadSourceMaps :: bool
  finalize :: bool
  setCommits :: "'c option"
  deploy :: "'d option"

record ('c, 'd) release_management_args =
  releaseName :: jsstring
  shouldCleanArtifacts :: bool
  shouldUploadSourceMaps :: bool
  shouldFinalizeRelease :: bool
  setCommitsOption :: "'c option"
  deployOptions :: "'d option"

definition release_management_args_of ::
  "('c, 'd) options \<Rightarrow> jsstring option \<Rightarrow> ('c, 'd) release_management_args option" where
  "release_management_args_of opts name =
     (case name of
        None \<Rightarrow> None
      | Some n \<Rightarrow>
          if n = [] then None
          else Some \<lparr>releaseName = n,
                     shouldCleanArtifacts = cleanArtifacts opts,
                     shouldUploadSourceMaps = uploadSourceMaps opts,
                     shouldFinalizeRelease = finalize opts,
                     setCommitsOption = setCommits opts,
                     deployOptions = deploy opts\<rparr>)"

text \<open>
  Modelled from the spec: \<open>releaseManagementPlugin\<close> is imported from
  \<open>./plugins/release-management\<close>, which is not among the sources. Section 4.5 of the
  specification: six steps in a fixed order, each skipped or run by configuration, none
  retried; every failure goes to the recoverable-error sink; a failed Create is fatal
  (no further step runs), a failure of any later step lets the later steps run when the
  sink returns. The remote collaborator is the parameter \<open>remote\<close>: for each step, \<open>None\<close>
  for success or the error it fails with. The result carries the list of remote
  operations performed, in order.
\<close>

datatype step = Create | Clean | Upload | Commits | Finalize | Deploy

fun step_enabled :: "('c, 'd) release_management_args \<Rightarrow> step \<Rightarrow> bool" where
  "step_enabled args Create = True"
| "step_enabled args Clean = shouldCleanArtifacts args"
| "step_enabled args Upload = shouldUploadSourceMaps args"
| "step_enabled args Commits = (setCommitsOption args \<noteq> None)"
| "step_enabled args Finalize = shouldFinalizeRelease args"
| "step_enabled args Deploy = (deployOptions args \<noteq> None)"

fun step_fatal :: "step \<Rightarrow> bool" where
  "step_fatal Create = True"
| "step_fatal s = False"

fun run_steps ::
  "('c, 'd) release_management_args \<Rightarrow> (step \<Rightarrow> js_value option) \<Rightarrow> error_handler option \<Rightarrow>
   step list \<Rightarrow> step list \<times> sink_state \<Rightarrow> (js_value + unit) \<times> step list \<times> sink_state" where
  "run_steps args remote eh [] (trace, st) = (Inr (), trace, st)"
| "run_steps args remote eh (s # rest) (trace, st) =
     (if \<not> step_enabled args s then run_steps args remote eh rest (trace, st)
      else
        case remote s of
          None \<Rightarrow> run_steps args remote eh rest (trace @ [s], st)
        | Some err \<Rightarrow>
            (case handleRecoverableError eh err st of
               (Inl thrown, st') \<Rightarrow> (Inl thrown, trace @ [s], st')
             | (Inr u, st') \<Rightarrow>
                 if step_fatal s then (Inr (), trace @ [s], st')
                 else run_steps args remote eh rest (trace @ [s], st')))"

definition release_pipeline ::
  "('c, 'd) release_management_args \<Rightarrow> (step \<Rightarrow> js_value option) \<Rightarrow> error_handler option \<Rightarrow>
   sink_state \<Rightarrow> (js_value + unit) \<times> step list \<times> sink_state" where
  "release_pipeline args remote eh st =
     run_steps args remote eh [Create, Clean, Upload, Commits, Finalize, Deploy] ([], st)"

section \<open>Facts about strings and the matcher\<close>


lemma endsWith_iff: "endsWith s e \<longleftrightarrow> (\<exists>pre. s = pre @ e)"
proof
  assume "endsWith s e"
  then have "s = take (length s - length e) s @ e"
    by (metis append_take_drop_id endsWith_def)
  then show "\<exists>pre. s = pre @ e" ..
next
  assume "\<exists>pre. s = pre @ e"
  then show "endsWith s e" by (auto simp: endsWith_def)
qed

text \<open>Whatever the matcher returns is the input with a consumed part cut off the front.\<close>

lemma matches_sound:
  "st' \<in> set (matches r st) \<Longrightarrow> \<exists>u. snd st = u @ snd st' \<and> fst st' = fst st + length u"
proof (induction r st arbitrary: st' rule: matches.induct)
  case (1 a n s)
  then show ?case by (auto split: list.splits if_splits)
next
  case (4 r1 r2 n s)
  from 4(3) obtain x where x: "x \<in> set (matches r1 (n, s))" and s: "st' \<in> set (matches r2 x)"
    by auto
  from 4(1)[OF x] obtain u where u: "s = u @ snd x" "fst x = n + length u" by auto
  from 4(2)[OF x s] obtain v where v: "snd x = v @ snd st'" "fst st' = fst x + length v" by auto
  from u v have "s = (u @ v) @ snd st' \<and> fst st' = n + length (u @ v)" by simp
  then show ?case by fastforce
next
  case (6 r n s)
  show ?case
  proof (cases "st' = (n, s)")
    case True
    then show ?thesis by simp
  next
    case False
    with 6(3) obtain x where x: "x \<in> set (matches r (n, s))" and l: "length (snd x) < length s"
      and s: "st' \<in> set (matches (Star r) x)"
      by (auto split: if_splits)
    from 6(1)[OF x] obtain u where u: "s = u @ snd x" "fst x = n + length u" by auto
    from 6(2)[OF x l s] obtain v where v: "snd x = v @ snd st'" "fst st' = fst x + length v" by auto
    from u v have "s = (u @ v) @ snd st' \<and> fst st' = n + length (u @ v)" by simp
    then show ?thesis by fastforce
  qed
qed auto

text \<open>
  On the states the matcher returns, less input left is the same as a larger end index:
  the progress test of \<open>matches\<close> is the empty check on end indices.
\<close>

lemma matches_progress:
  assumes "st' \<in> set (matches r (n, s))"
  shows "length (snd st') < length s \<longleftrightarrow> fst st' \<noteq> n"
proof -
  from matches_sound[OF assms] obtain u where "s = u @ snd st'" "fst st' = n + length u"
    by auto
  then show ?thesis by (cases u) auto
qed

lemma matches_Star_nonempty: "matches (Star r) st \<noteq> []"
  by (cases st) simp

lemma matches_Opt_nonempty: "matches (Opt r) st \<noteq> []"
  by (cases st) simp

lemma matches_lit:
  "matches (lit a) (n, s) =
     (if take (length a) s = a then [(n + length a, drop (length a) s)] else [])"
proof (induction a arbitrary: n s)
  case Nil
  then show ?case by (simp add: lit_def)
next
  case (Cons x a)
  have unf: "lit (x # a) = Seq (Atom (Lit x)) (lit a)" by (simp add: lit_def)
  show ?case
  proof (cases s)
    case Nil
    then show ?thesis by (simp add: unf)
  next
    case (Cons c cs)
    then show ?thesis using Cons.IH[of "Suc n" cs] by (simp add: unf)
  qed
qed

text \<open>The search fails exactly when the matcher fails at every index.\<close>

lemma exec_from_None_iff:
  "exec_from r n s = None \<longleftrightarrow> (\<forall>k\<le>length s. matches r (n + k, drop k s) = [])"
proof (induction s arbitrary: n)
  case Nil
  then show ?case by (simp split: list.splits)
next
  case (Cons c cs)
  show ?case
  proof (cases "matches r (n, c # cs)")
    case Nil
    have "(\<forall>k\<le>length (c # cs). matches r (n + k, drop k (c # cs)) = []) \<longleftrightarrow>
          (\<forall>k\<le>length cs. matches r (Suc n + k, drop k cs) = [])"
    proof
      assume a: "\<forall>k\<le>length (c # cs). matches r (n + k, drop k (c # cs)) = []"
      show "\<forall>k\<le>length cs. matches r (Suc n + k, drop k cs) = []"
      proof (intro allI impI)
        fix k assume "k \<le> length cs"
        with a have "matches r (n + Suc k, drop (Suc k) (c # cs)) = []"
          by (metis Suc_le_mono length_Cons)
        then show "matches r (Suc n + k, drop k cs) = []" by simp
      qed
    next
      assume a: "\<forall>k\<le>length cs. matches r (Suc n + k, drop k cs) = []"
      show "\<forall>k\<le>length (c # cs). matches r (n + k, drop k (c # cs)) = []"
      proof (intro allI impI)
        fix k assume k: "k \<le> length (c # cs)"
        show "matches r (n + k, drop k (c # cs)) = []"
        proof (cases k)
          case 0
          then show ?thesis using Nil by simp
        next
          case (Suc j)
          with k a have "matches r (Suc n + j, drop j cs) = []" by simp
          then show ?thesis using Suc by simp
        qed
      qed
    qed
    then show ?thesis using Nil Cons.IH[of "Suc n"] by simp
  next
    case (Cons st sts)
    then have "\<not> (\<forall>k\<le>length (c # cs). matches r (n + k, drop k (c # cs)) = [])"
      by (metis add.right_neutral drop0 le0 list.distinct(1))
    then show ?thesis using Cons by simp
  qed
qed

lemma contains_iff:
  "(\<exists>k\<le>length s. take (length a) (drop k s) = a) \<longleftrightarrow> (\<exists>pre post. s = pre @ a @ post)"
proof
  assume "\<exists>k\<le>length s. take (length a) (drop k s) = a"
  then obtain k where k: "take (length a) (drop k s) = a" by blast
  have "s = take k s @ take (length a) (drop k s) @ drop (length a) (drop k s)"
    by (simp only: append_take_drop_id)
  with k have "s = take k s @ a @ drop (length a) (drop k s)" by simp
  then show "\<exists>pre post. s = pre @ a @ post" by blast
next
  assume "\<exists>pre post. s = pre @ a @ post"
  then obtain pre post where s: "s = pre @ a @ post" by blast
  then have "length pre \<le> length s \<and> take (length a) (drop (length pre) s) = a" by simp
  then show "\<exists>k\<le>length s. take (length a) (drop k s) = a" by blast
qed

section \<open>The pattern and the scanner\<close>





lemma greedy_le: "j \<in> set (greedy P s) \<Longrightarrow> j \<le> length s"
proof -
  assume "j \<in> set (greedy P s)"
  then have "j \<le> length (takeWhile P s)" by (auto simp: greedy_def)
  also have "\<dots> \<le> length s" by (rule length_takeWhile_le)
  finally show ?thesis .
qed


lemma matches_Atom_class:
  "matches (Atom a) (n, s) =
     (case s of [] \<Rightarrow> [] | c # cs \<Rightarrow> if atom_ok a c then [(Suc n, cs)] else [])"
  by simp































section \<open>The scanner on code that begins with whitespace and comments\<close>












section \<open>The debug ID injection\<close>

lemma chunk_ending_iff:
  "list_ex (\<lambda>ending. endsWith f ending) chunkEndings \<longleftrightarrow>
     (\<exists>pre. f = pre @ js ''.js'' \<or> f = pre @ js ''.mjs'' \<or> f = pre @ js ''.cjs'')"
  by (auto simp: chunkEndings_def endsWith_iff)

lemma commentUseStrictRegex_nonempty: "matches commentUseStrictRegex (0, s) \<noteq> []"
proof -
  let ?star = "Star (Alt (Star (Atom Space)) (Alt blockComment lineComment))"
  obtain st sts where st: "matches ?star (0, s) = st # sts"
    using matches_Star_nonempty[of _ "(0, s)"] by (meson list.exhaust)
  have "matches (Seq ?star (Opt directive)) (0, s) \<noteq> []"
    using st matches_Opt_nonempty[of directive st] by simp
  then show ?thesis by (simp add: commentUseStrictRegex_def)
qed

text \<open>The pattern always matches at index 0, and what it matches is a prefix of the code.\<close>

lemma js_match_commentUseStrictRegex:
  "\<exists>m rest. s = m @ rest \<and>
     js_match s commentUseStrictRegex = Some \<lparr>match_index = 0, match_0 = m\<rparr>"
proof -
  obtain st sts where st: "matches commentUseStrictRegex (0, s) = st # sts"
    using commentUseStrictRegex_nonempty[of s] by (meson list.exhaust)
  have "js_match s commentUseStrictRegex = Some \<lparr>match_index = 0, match_0 = take (fst st) s\<rparr>"
    using st by (cases s) (simp_all add: js_match_def)
  moreover have "s = take (fst st) s @ drop (fst st) s" by simp
  ultimately show ?thesis by blast
qed

lemma renderChunk_at_match:
  assumes f: "list_ex (\<lambda>ending. endsWith fileName ending) chunkEndings"
    and m: "js_match src commentUseStrictRegex = Some \<lparr>match_index = 0, match_0 = m\<rparr>"
    and s: "src = m @ rest"
  shows "\<exists>r. renderChunk uuid gen_map src fileName = Inr (Some r) \<and>
           code r = m @ getDebugIdSnippet (uuid src) @ rest"
proof (cases "m = []")
  case True
  then show ?thesis using f m s
    by (simp add: renderChunk_def truthy_match_0_def ms_prepend_def ms_new_def ms_toString_def
        Let_def)
next
  case False
  then show ?thesis using f m s
    by (simp add: renderChunk_def truthy_match_0_def ms_replace_def ms_overwrite_def ms_new_def
        ms_toString_def Let_def)
qed

lemma renderChunk_no_match:
  "\<not> list_ex (\<lambda>ending. endsWith fileName ending) chunkEndings \<Longrightarrow>
     renderChunk uuid gen_map src fileName = Inr None"
  by (simp add: renderChunk_def)



lemma bundle_js_ending:
  "\<exists>pre. js ''bundle.js'' = pre @ js ''.js'' \<or> js ''bundle.js'' = pre @ js ''.mjs''
     \<or> js ''bundle.js'' = pre @ js ''.cjs''"
  by (rule exI[of _ "js ''bundle''"]) (simp add: js_def)








text \<open>
  C9. For a chunk with a matching file name the emitted code is the original code with
  the snippet inserted at one position: the code splits into a prefix and a suffix, and
  the output is the prefix, the snippet, the suffix. No original character is removed,
  moved or changed.
\<close>

theorem renderChunk_preserves_code:
  assumes "\<exists>pre. fileName = pre @ js ''.js'' \<or> fileName = pre @ js ''.mjs''
             \<or> fileName = pre @ js ''.cjs''"
  shows "\<exists>prefix suffix r. src = prefix @ suffix
           \<and> renderChunk uuid gen_map src fileName = Inr (Some r)
           \<and> code r = prefix @ getDebugIdSnippet (uuid src) @ suffix"
proof -
  have f: "list_ex (\<lambda>ending. endsWith fileName ending) chunkEndings"
    using assms by (simp only: chunk_ending_iff)
  obtain m rest where mr: "src = m @ rest"
    "js_match src commentUseStrictRegex = Some \<lparr>match_index = 0, match_0 = m\<rparr>"
    using js_match_commentUseStrictRegex[of src] by blast
  from renderChunk_at_match[OF f mr(2) mr(1)] mr(1) show ?thesis by blast
qed

theorem renderChunk_preserves_code_witness:
  "(\<exists>pre. js ''bundle.js'' = pre @ js ''.js'' \<or> js ''bundle.js'' = pre @ js ''.mjs''
      \<or> js ''bundle.js'' = pre @ js ''.cjs'')
   \<and> (\<exists>prefix suffix r. js ''/* x */ foo();'' = prefix @ suffix
        \<and> renderChunk (\<lambda>c. js ''id'') (\<lambda>ms f. ()) (js ''/* x */ foo();'') (js ''bundle.js'')
            = Inr (Some r)
        \<and> code r = prefix @ getDebugIdSnippet (js ''id'') @ suffix)"
  using renderChunk_preserves_code[OF bundle_js_ending,
      of "js ''/* x */ foo();''" "\<lambda>c. js ''id''" "\<lambda>ms f. ()"] bundle_js_ending
  by blast

lemma html_no_ending:
  "\<not> (\<exists>pre. js ''index.html'' = pre @ js ''.js'' \<or> js ''index.html'' = pre @ js ''.mjs''
            \<or> js ''index.html'' = pre @ js ''.cjs'')"
  unfolding chunk_ending_iff[symmetric]
  by (simp add: chunkEndings_def endsWith_def js_def)

text \<open>
  C6. \<open>renderChunk\<close> returns \<open>null\<close> exactly when the file name does not end in \<open>.js\<close>,
  \<open>.mjs\<close> or \<open>.cjs\<close>, whatever the content of the chunk, the identifier function and the
  map generator are: for such a file name nothing is computed from the code.
\<close>

theorem renderChunk_null_iff:
  "renderChunk uuid gen_map src fileName = Inr None \<longleftrightarrow>
     \<not> (\<exists>pre. fileName = pre @ js ''.js'' \<or> fileName = pre @ js ''.mjs''
            \<or> fileName = pre @ js ''.cjs'')"
proof (cases "list_ex (\<lambda>ending. endsWith fileName ending) chunkEndings")
  case True
  obtain m rest where mr: "src = m @ rest"
    "js_match src commentUseStrictRegex = Some \<lparr>match_index = 0, match_0 = m\<rparr>"
    using js_match_commentUseStrictRegex[of src] by blast
  from renderChunk_at_match[OF True mr(2) mr(1), of uuid gen_map]
  have "renderChunk uuid gen_map src fileName \<noteq> Inr None" by auto
  with True show ?thesis by (simp only: chunk_ending_iff simp_thms)
next
  case False
  from renderChunk_no_match[OF False] False show ?thesis
    by (simp only: chunk_ending_iff simp_thms)
qed

theorem renderChunk_null_iff_witness:
  "\<not> (\<exists>pre. js ''index.html'' = pre @ js ''.js'' \<or> js ''index.html'' = pre @ js ''.mjs''
            \<or> js ''index.html'' = pre @ js ''.cjs'')
   \<and> renderChunk (\<lambda>c. js ''id'') (\<lambda>ms f. ()) (js ''<p>x</p>'') (js ''index.html'') = Inr None
   \<and> renderChunk (\<lambda>c. js ''id'') (\<lambda>ms f. ()) (js ''foo();'') (js ''bundle.js'') \<noteq> Inr None"
  using renderChunk_null_iff[of "\<lambda>c. js ''id''" "\<lambda>ms f. ()" "js ''<p>x</p>''" "js ''index.html''"]
    renderChunk_null_iff[of "\<lambda>c. js ''id''" "\<lambda>ms f. ()" "js ''foo();''" "js ''bundle.js''"]
    html_no_ending bundle_js_ending
  by blast

section \<open>The snippet\<close>












section \<open>The release injection hooks\<close>

text \<open>
  C8. \<open>resolveId\<close> returns the marker (the same id, not external, with side effects)
  exactly for the reserved id, a NUL character followed by
  \<open>sentry-release-injection-file\<close>, and \<open>null\<close> for every other id; \<open>load\<close> returns the
  injection code exactly for that id and \<open>null\<close> otherwise. So both accept the same single
  id.
\<close>

theorem resolveId_load_same_id:
  "virtualReleaseInjectionFileId = 0 # js ''sentry-release-injection-file''
   \<and> resolveId i =
       (if i = virtualReleaseInjectionFileId
        then Some \<lparr>id_out = i, external = False, moduleSideEffects = True\<rparr> else None)
   \<and> load injectionCode i =
       (if i = virtualReleaseInjectionFileId then Some injectionCode else None)
   \<and> (resolveId i \<noteq> None \<longleftrightarrow> load injectionCode i \<noteq> None)"
  by (simp add: resolveId_def load_def virtualReleaseInjectionFileId_def)

theorem resolveId_load_same_id_witness:
  "resolveId virtualReleaseInjectionFileId
     = Some \<lparr>id_out = virtualReleaseInjectionFileId, external = False,
             moduleSideEffects = True\<rparr>
   \<and> load (js ''code'') virtualReleaseInjectionFileId = Some (js ''code'')
   \<and> resolveId (js ''/src/app.ts'') = None
   \<and> load (js ''code'') (js ''/src/app.ts'') = None"
proof -
  have ne: "js ''/src/app.ts'' \<noteq> virtualReleaseInjectionFileId"
    by (simp add: virtualReleaseInjectionFileId_def js_def)
  show ?thesis
    using resolveId_load_same_id[of virtualReleaseInjectionFileId "js ''code''"]
      resolveId_load_same_id[of "js ''/src/app.ts''" "js ''code''"] ne
    by (simp only: simp_thms if_True if_False)
qed

text \<open>The \<open>node_modules\<close> pattern finds a match exactly in the ids that contain
  \<open>node_modules\<close> between two backslashes or between two slashes.\<close>

lemma js_match_nodeModulesRegex:
  "js_match i nodeModulesRegex \<noteq> None \<longleftrightarrow>
     (\<exists>pre post. i = pre @ (0x5C # js ''node_modules'' @ [0x5C]) @ post
                \<or> i = pre @ js ''/node_modules/'' @ post)"
proof -
  let ?A = "0x5C # js ''node_modules'' @ [0x5C]"
  let ?B = "js ''/node_modules/''"
  have "js_match i nodeModulesRegex \<noteq> None \<longleftrightarrow>
        (\<exists>k\<le>length i. take (length ?A) (drop k i) = ?A \<or> take (length ?B) (drop k i) = ?B)"
    unfolding js_match_def nodeModulesRegex_def exec_from_None_iff
    by (simp only: matches.simps matches_lit add_0) auto
  also have "\<dots> \<longleftrightarrow> (\<exists>k\<le>length i. take (length ?A) (drop k i) = ?A)
                 \<or> (\<exists>k\<le>length i. take (length ?B) (drop k i) = ?B)"
    by blast
  also have "\<dots> \<longleftrightarrow> (\<exists>pre post. i = pre @ ?A @ post) \<or> (\<exists>pre post. i = pre @ ?B @ post)"
    by (simp only: contains_iff)
  finally show ?thesis by blast
qed

lemma transform_ending_iff:
  "list_ex (\<lambda>ending. endsWith i ending) transformEndings \<longleftrightarrow>
     (\<exists>pre. i = pre @ js ''.js'' \<or> i = pre @ js ''.ts'' \<or> i = pre @ js ''.jsx''
           \<or> i = pre @ js ''.tsx'' \<or> i = pre @ js ''.mjs'')"
  by (auto simp: transformEndings_def endsWith_iff)

text \<open>
  C5, as stated, fails: \<open>node_modules/a.js\<close> has the path segment \<open>node_modules\<close>, but the
  segment stands at the start of the id and the pattern asks for a separator on both
  sides, so \<open>transform\<close> appends the import instead of returning \<open>null\<close>.
\<close>

theorem transform_relative_node_modules:
  "has_node_modules_segment (js ''node_modules/a.js'')
   \<and> transform no_map (js ''f();'') (js ''node_modules/a.js'')
       = Some \<lparr>code = js ''f();'' @ importStatement, map_out = ()\<rparr>"
proof
  show "has_node_modules_segment (js ''node_modules/a.js'')"
    by (simp add: has_node_modules_segment_def js_def)
  have m: "js_match (js ''node_modules/a.js'') nodeModulesRegex = None"
    by (simp add: js_match_def nodeModulesRegex_def lit_def js_def)
  have e: "list_ex (\<lambda>ending. endsWith (js ''node_modules/a.js'') ending) transformEndings"
    by (simp add: transformEndings_def endsWith_def js_def)
  have v: "js ''node_modules/a.js'' \<noteq> virtualReleaseInjectionFileId"
    by (simp add: virtualReleaseInjectionFileId_def js_def)
  show "transform no_map (js ''f();'') (js ''node_modules/a.js'')
       = Some \<lparr>code = js ''f();'' @ importStatement, map_out = ()\<rparr>"
    using m e v by (simp add: transform_def ms_append_def ms_new_def ms_toString_def)
qed

text \<open>
  C5, amended. \<open>transform\<close> returns \<open>null\<close> for every id that is the synthetic id, or
  contains \<open>node_modules\<close> between two slashes or between two backslashes (a
  \<open>node_modules\<close> path segment with the same separator on both sides), or does not end in
  one of \<open>.js\<close>, \<open>.ts\<close>, \<open>.jsx\<close>, \<open>.tsx\<close>, \<open>.mjs\<close>. For every other id it returns the
  input code, unchanged, followed by the one import statement of the synthetic module at
  the very end, with the map generated from that buffer.
\<close>

theorem transform_declines_or_appends:
  "transform gen_map src i =
     (if i = virtualReleaseInjectionFileId
         \<or> (\<exists>pre post. i = pre @ (0x5C # js ''node_modules'' @ [0x5C]) @ post
                      \<or> i = pre @ js ''/node_modules/'' @ post)
         \<or> \<not> (\<exists>pre. i = pre @ js ''.js'' \<or> i = pre @ js ''.ts'' \<or> i = pre @ js ''.jsx''
                    \<or> i = pre @ js ''.tsx'' \<or> i = pre @ js ''.mjs'')
      then None
      else Some \<lparr>code = src @ [0x0A, 0x0A] @ js '';import \"''
                          @ virtualReleaseInjectionFileId @ js ''\";'',
                 map_out = gen_map \<lparr>original = src, filename = None, intro = [], body = src,
                                    outro = importStatement\<rparr> None\<rparr>)"
  unfolding js_match_nodeModulesRegex[symmetric] transform_ending_iff[symmetric]
  by (simp add: transform_def ms_append_def ms_new_def ms_toString_def importStatement_def)

lemma app_ts_facts:
  "js ''/src/app.ts'' \<noteq> virtualReleaseInjectionFileId
   \<and> \<not> (\<exists>pre post. js ''/src/app.ts'' = pre @ (0x5C # js ''node_modules'' @ [0x5C]) @ post
                      \<or> js ''/src/app.ts'' = pre @ js ''/node_modules/'' @ post)
   \<and> (\<exists>pre. js ''/src/app.ts'' = pre @ js ''.js'' \<or> js ''/src/app.ts'' = pre @ js ''.ts''
          \<or> js ''/src/app.ts'' = pre @ js ''.jsx'' \<or> js ''/src/app.ts'' = pre @ js ''.tsx''
          \<or> js ''/src/app.ts'' = pre @ js ''.mjs'')"
  unfolding js_match_nodeModulesRegex[symmetric] transform_ending_iff[symmetric]
  by (simp add: virtualReleaseInjectionFileId_def js_match_def nodeModulesRegex_def lit_def
      js_def transformEndings_def endsWith_def)

lemma dep_js_facts:
  "\<exists>pre post. js ''/p/node_modules/a.js'' = pre @ (0x5C # js ''node_modules'' @ [0x5C]) @ post
                      \<or> js ''/p/node_modules/a.js'' = pre @ js ''/node_modules/'' @ post"
  unfolding js_match_nodeModulesRegex[symmetric]
  by (simp add: js_match_def nodeModulesRegex_def lit_def js_def)

theorem transform_declines_or_appends_witness:
  "transform (\<lambda>ms f. ()) (js ''f();'') (js ''/src/app.ts'')
     = Some \<lparr>code = js ''f();'' @ [0x0A, 0x0A] @ js '';import \"''
                      @ virtualReleaseInjectionFileId @ js ''\";'',
             map_out = ()\<rparr>
   \<and> transform (\<lambda>ms f. ()) (js ''f();'') (js ''/p/node_modules/a.js'') = None"
  using transform_declines_or_appends[of "\<lambda>ms f. ()" "js ''f();''" "js ''/src/app.ts''"]
    transform_declines_or_appends[of "\<lambda>ms f. ()" "js ''f();''" "js ''/p/node_modules/a.js''"]
    app_ts_facts dep_js_facts
  by (simp only: simp_thms if_True if_False)

section \<open>The recoverable-error sink\<close>

text \<open>
  C4, as stated, fails: with a callback configured, a callback that throws makes
  \<open>handleRecoverableError\<close> throw, since the call of the callback is not guarded.
\<close>

theorem handleRecoverableError_callback_throws:
  "fst (handleRecoverableError (Some rethrowing_handler) (ErrorObject (js ''boom'')) sink_state0)
     = Inl (ErrorObject (js ''boom''))"
  by (simp add: handleRecoverableError_def rethrowing_handler_def Let_def)

text \<open>
  C4, amended. For every error value: if a callback is configured, it is called exactly
  once, with the error itself when that is an instance of \<open>Error\<close> and with a new generic
  \<open>Error\<close> otherwise, and \<open>handleRecoverableError\<close> ends as that call ends: it returns
  normally when the callback returns and throws only what the callback throws. If no
  callback is configured, the callback is not called and the original error value is
  thrown unchanged.
\<close>

theorem handleRecoverableError_outcome:
  "handler_calls (snd (handleRecoverableError (Some handler) unknownError st))
     = handler_calls st
       @ [if instanceof_Error unknownError then unknownError
          else ErrorObject (js ''An unknown error occured'')]
   \<and> fst (handleRecoverableError (Some handler) unknownError st)
     = handler (if instanceof_Error unknownError then unknownError
                else ErrorObject (js ''An unknown error occured''))
   \<and> fst (handleRecoverableError None unknownError st) = Inl unknownError
   \<and> handler_calls (snd (handleRecoverableError None unknownError st)) = handler_calls st"
  by (simp add: handleRecoverableError_def Let_def)

theorem handleRecoverableError_outcome_witness:
  "handleRecoverableError (Some returning_handler) (StringValue (js ''oops'')) sink_state0
     = (Inr (), \<lparr>transaction_status = Some (js ''internal_error''),
                 handler_calls = [ErrorObject (js ''An unknown error occured'')]\<rparr>)
   \<and> fst (handleRecoverableError (Some returning_handler) (ErrorObject (js ''boom'')) sink_state0)
     = Inr ()
   \<and> fst (handleRecoverableError None (StringValue (js ''oops'')) sink_state0)
     = Inl (StringValue (js ''oops''))"
proof -
  note t1 = handleRecoverableError_outcome[of returning_handler "StringValue (js ''oops'')"
      sink_state0]
  note t2 = handleRecoverableError_outcome[of returning_handler "ErrorObject (js ''boom'')"
      sink_state0]
  have full: "handleRecoverableError (Some returning_handler) (StringValue (js ''oops''))
        sink_state0
     = (Inr (), \<lparr>transaction_status = Some (js ''internal_error''),
                 handler_calls = [ErrorObject (js ''An unknown error occured'')]\<rparr>)"
    by (simp add: handleRecoverableError_def Let_def returning_handler_def sink_state0_def)
  from t1 t2 full show ?thesis by (simp add: returning_handler_def)
qed

section \<open>The identifier generator\<close>

lemma all_hex_digits: "list_all (\<lambda>k. is_hex (hex_digit k)) [0..<16]"
  by code_simp

lemma is_hex_hex_digit: "n < 16 \<Longrightarrow> is_hex (hex_digit n)"
proof -
  assume "n < 16"
  then have "n \<in> set [0..<16]" by simp
  with all_hex_digits show ?thesis unfolding list_all_iff by blast
qed

lemma hex_group_length: "length (hex_group w i j) = j - i"
  by (simp add: hex_group_def)

lemma hex_group_hex: "list_all is_hex (hex_group w i j)"
  by (simp add: hex_group_def list_all_iff nibble_def is_hex_hex_digit)

lemma hex_groups_step:
  assumes "length g = n" and "list_all is_hex g" and "ns \<noteq> []" and "hex_groups ns rest"
  shows "hex_groups (n # ns) (g @ 0x2D # rest)"
proof -
  obtain m ms where ns: "ns = m # ms" using assms(3) by (cases ns) auto
  show ?thesis using assms(1,2,4) unfolding ns by simp
qed

lemma format_uuid_shape: "uuid_shape (format_uuid w)"
proof -
  have 5: "hex_groups [12] (hex_group w 20 32)"
    by (simp add: hex_group_length hex_group_hex)
  have 4: "hex_groups [4, 12] (hex_group w 16 20 @ 0x2D # hex_group w 20 32)"
    by (rule hex_groups_step) (simp_all add: hex_group_length hex_group_hex 5)
  have 3: "hex_groups [4, 4, 12]
       (hex_group w 12 16 @ 0x2D # hex_group w 16 20 @ 0x2D # hex_group w 20 32)"
    by (rule hex_groups_step) (simp_all add: hex_group_length hex_group_hex 4)
  have 2: "hex_groups [4, 4, 4, 12]
       (hex_group w 8 12 @ 0x2D # hex_group w 12 16 @ 0x2D # hex_group w 16 20 @ 0x2D
          # hex_group w 20 32)"
    by (rule hex_groups_step) (simp_all add: hex_group_length hex_group_hex 3)
  have 1: "hex_groups [8, 4, 4, 4, 12]
       (hex_group w 0 8 @ 0x2D # hex_group w 8 12 @ 0x2D # hex_group w 12 16 @ 0x2D
          # hex_group w 16 20 @ 0x2D # hex_group w 20 32)"
    by (rule hex_groups_step) (simp_all add: hex_group_length hex_group_hex 2)
  show ?thesis unfolding uuid_shape_def format_uuid_def append_Cons append_Nil by (rule 1)
qed

text \<open>
  C3. For every input string, the empty one included, and whatever the hash is, the
  identifier has the canonical UUID shape: five groups of hexadecimal digits of lengths
  8, 4, 4, 4 and 12, separated by hyphens. The generator is a total function: it has no
  failing case.
\<close>

theorem stringToUUID_shape: "uuid_shape (stringToUUID hash str)"
  by (simp add: stringToUUID_def format_uuid_shape)

theorem stringToUUID_shape_witness: "uuid_shape (stringToUUID (\<lambda>s. 0) [])"
  using stringToUUID_shape[of "\<lambda>s. 0" "[]"] .

section \<open>The release pipeline\<close>

text \<open>
  C7. With \<open>cleanArtifacts\<close> off, \<open>uploadSourceMaps\<close> and \<open>finalize\<close> on, no commit range and
  no deploy metadata, a release name determined and every remote call succeeding, the
  pipeline performs the remote operations Create, Upload, Finalize, in this order, and no
  other: no Clean, no Commits, no Deploy. It ends normally and the error sink is not
  reached.
\<close>

theorem release_pipeline_create_upload_finalize:
  assumes "\<not> cleanArtifacts opts" and "uploadSourceMaps opts" and "finalize opts"
    and "setCommits opts = None" and "deploy opts = None"
    and "name \<noteq> []" and "\<forall>s. remote s = None"
  shows "\<exists>args. release_management_args_of opts (Some name) = Some args
           \<and> release_pipeline args remote (errorHandler opts) st
               = (Inr (), [Create, Upload, Finalize], st)"
  using assms by (simp add: release_management_args_of_def release_pipeline_def)

theorem release_pipeline_create_upload_finalize_witness:
  "\<exists>args. release_management_args_of
            \<lparr>errorHandler = None, cleanArtifacts = False, uploadSourceMaps = True,
              finalize = True, setCommits = (None :: unit option),
              deploy = (None :: unit option)\<rparr> (Some (js ''v1'')) = Some args
         \<and> release_pipeline args (\<lambda>s. None) None sink_state0
             = (Inr (), [Create, Upload, Finalize], sink_state0)"
  using release_pipeline_create_upload_finalize[of
      "\<lparr>errorHandler = None, cleanArtifacts = False, uploadSourceMaps = True,
        finalize = True, setCommits = (None :: unit option),
        deploy = (None :: unit option)\<rparr>" "js ''v1''" "\<lambda>s. None" sink_state0]
  by (simp add: js_def)

end
